theory Spec2Isabelle
  imports Complex_Main "HOL-Library.Word"
begin

section \<open>JavaScript values\<close>

text \<open>
  A JavaScript string is a sequence of 16-bit code units. String literals of the source
  are written with \<open>js\<close>, which maps each character to the code unit of the same number
  (the source's literals outside ASCII are in Latin-1, where the two coincide).
\<close>

type_synonym jsstring = "16 word list"

definition js :: "string \<Rightarrow> jsstring" where
  "js s = map (\<lambda>c. of_nat (of_char c)) s"

text \<open>
  A value of type Number that \<open>JSON.parse\<close> can produce: a finite double, here the
  rational it denotes (the sign of zero is not kept), or an infinity, which a literal
  such as \<open>1e999\<close> parses to.
\<close>

datatype number = Finite rat | PosInfinity | NegInfinity

text \<open>
  The values \<open>request.json()\<close> and \<open>response.json()\<close> resolve to. An object keeps its
  members in the order of the JSON text, duplicates included.
\<close>

datatype json =
    JNull
  | JBool bool
  | JNum number
  | JStr jsstring
  | JArr "json list"
  | JObj "(jsstring \<times> json) list"

text \<open>What a variable can hold: \<open>undefined\<close>, or a value as above.\<close>

datatype jsvalue = Undefined | Json json

datatype js_error = SyntaxError | TypeError | Error jsstring

text \<open>\<open>ToBoolean\<close>, which \<open>!x\<close> and \<open>x && y\<close> apply to their operand.\<close>

fun truthy :: "jsvalue \<Rightarrow> bool" where
  "truthy Undefined = False"
| "truthy (Json JNull) = False"
| "truthy (Json (JBool b)) = b"
| "truthy (Json (JNum n)) = (n \<noteq> Finite 0)"
| "truthy (Json (JStr s)) = (s \<noteq> [])"
| "truthy (Json (JArr xs)) = True"
| "truthy (Json (JObj kvs)) = True"

fun typeof :: "jsvalue \<Rightarrow> jsstring" where
  "typeof Undefined = js ''undefined''"
| "typeof (Json JNull) = js ''object''"
| "typeof (Json (JBool b)) = js ''boolean''"
| "typeof (Json (JNum n)) = js ''number''"
| "typeof (Json (JStr s)) = js ''string''"
| "typeof (Json (JArr xs)) = js ''object''"
| "typeof (Json (JObj kvs)) = js ''object''"

text \<open>
  The binding \<open>const { text } = v\<close>. Destructuring \<open>null\<close> throws a TypeError. An object
  gives its member \<open>text\<close> (of duplicate members in the JSON text, the last one stands)
  or \<open>undefined\<close>; a boolean, a number, a string and an array have no property of
  that name.
\<close>

fun destructure_text :: "json \<Rightarrow> js_error + jsvalue" where
  "destructure_text JNull = Inl TypeError"
| "destructure_text (JObj kvs) =
     Inr (case map_of (rev kvs) (js ''text'') of None \<Rightarrow> Undefined | Some v \<Rightarrow> Json v)"
| "destructure_text (JBool b) = Inr Undefined"
| "destructure_text (JNum n) = Inr Undefined"
| "destructure_text (JStr s) = Inr Undefined"
| "destructure_text (JArr xs) = Inr Undefined"

section \<open>Double-precision arithmetic\<close>

text \<open>
  The arithmetic of the handler is IEEE 754 binary64 with rounding to nearest, ties to
  even. A finite double is the rational it denotes. \<open>round_half_even\<close> rounds a rational
  to the nearest integer, a tie to the even one.
\<close>

definition round_half_even :: "rat \<Rightarrow> int" where
  "round_half_even q =
     (let f = \<lfloor>q\<rfloor>; d = q - of_int f
      in if d < 1 / 2 then f
         else if 1 / 2 < d then f + 1
         else if even f then f else f + 1)"

text \<open>
  \<open>find_exponent n e x\<close> climbs from exponent \<open>e\<close>, at most \<open>n\<close> steps, while the next
  power of two is still at most \<open>x\<close>. From the least exponent \<open>-1022\<close> with \<open>2045\<close> steps
  it gives the binade of a non-negative \<open>x\<close>: the exponent \<open>e\<close> of \<open>2^e \<le> x < 2^(e+1)\<close>
  for a normal \<open>x\<close>, and \<open>-1022\<close> for a subnormal one.
\<close>

fun find_exponent :: "nat \<Rightarrow> int \<Rightarrow> rat \<Rightarrow> int" where
  "find_exponent 0 e x = e"
| "find_exponent (Suc n) e x =
     (if 2 powi (e + 1) \<le> x then find_exponent n (e + 1) x else e)"

definition exponent :: "rat \<Rightarrow> int" where
  "exponent x = find_exponent 2045 (- 1022) x"

text \<open>The distance of neighbouring doubles around \<open>x\<close>: 52 fraction bits below the exponent.\<close>

definition ulp :: "rat \<Rightarrow> rat" where
  "ulp x = 2 powi (exponent \<bar>x\<bar> - 52)"

text \<open>
  The double nearest to \<open>x\<close>, for \<open>x\<close> of magnitude below \<open>2^1024\<close> (beyond, the double
  result is an infinity; the handler's operands are between 0 and 1).
\<close>

definition round_double :: "rat \<Rightarrow> rat" where
  "round_double x = sgn x * of_int (round_half_even (\<bar>x\<bar> / ulp x)) * ulp x"

definition is_double :: "rat \<Rightarrow> bool" where
  "is_double x = (\<bar>x\<bar> < 2 powi 1024 \<and> round_double x = x)"

definition double_add :: "rat \<Rightarrow> rat \<Rightarrow> rat" where
  "double_add x y = round_double (x + y)"

definition double_mul :: "rat \<Rightarrow> rat \<Rightarrow> rat" where
  "double_mul x y = round_double (x * y)"

section \<open>The service: the route handler \<open>POST\<close>\<close>

text \<open>
  What the handler acts on besides its request: the values the successive calls of
  \<open>Math.random()\<close> return and how many calls were made, the time spent waiting on
  timers, and what was written with \<open>console.error\<close>.
\<close>

record world =
  random_seq :: "nat \<Rightarrow> rat"
  random_calls :: nat
  elapsed_ms :: nat
  console :: "js_error list"

definition Math_random :: "world \<Rightarrow> rat \<times> world" where
  "Math_random w = (random_seq w (random_calls w), w\<lparr>random_calls := Suc (random_calls w)\<rparr>)"

text \<open>
  ECMAScript lets \<open>Math.random()\<close> return any double that is at least 0 and less than 1.
\<close>

definition unit_double :: "rat \<Rightarrow> bool" where
  "unit_double r = (is_double r \<and> 0 \<le> r \<and> r < 1)"

text \<open>\<open>await new Promise((resolve) => setTimeout(resolve, ms))\<close>\<close>

definition setTimeout_await :: "nat \<Rightarrow> world \<Rightarrow> world" where
  "setTimeout_await ms w = w\<lparr>elapsed_ms := elapsed_ms w + ms\<rparr>"

definition console_error :: "js_error \<Rightarrow> world \<Rightarrow> world" where
  "console_error e w = w\<lparr>console := console w @ [e]\<rparr>"

text \<open>
  Of the request the handler reads the body only, through \<open>request.json()\<close>: the field
  is the value the body parses to, \<open>None\<close> for a body that is not JSON, on which
  \<open>request.json()\<close> rejects with a SyntaxError.
\<close>

record NextRequest =
  json_body :: "json option"

definition request_json :: "NextRequest \<Rightarrow> js_error + json" where
  "request_json request =
     (case json_body request of None \<Rightarrow> Inl SyntaxError | Some v \<Rightarrow> Inr v)"

record NextResponse =
  status :: nat
  body :: json

definition NextResponse_json :: "json \<Rightarrow> nat \<Rightarrow> NextResponse" where
  "NextResponse_json data code = \<lparr>status = code, body = data\<rparr>"

text \<open>
  The statements inside \<open>try\<close>. The result is \<open>Inl\<close> for an exception thrown there and
  \<open>Inr\<close> for the response returned.
\<close>

definition POST_try :: "NextRequest \<Rightarrow> world \<Rightarrow> (js_error + NextResponse) \<times> world" where
  "POST_try request w =
     (case request_json request of
        Inl e \<Rightarrow> (Inl e, w)
      | Inr v \<Rightarrow>
          (case destructure_text v of
             Inl e \<Rightarrow> (Inl e, w)
           | Inr text \<Rightarrow>
               if \<not> truthy text \<or> typeof text \<noteq> js ''string'' then
                 (Inr (NextResponse_json
                    (JObj [(js ''error'', JStr (js ''Le texte est requis''))]) 400), w)
               else
                 let (r1, w1) = Math_random w;
                     isPositive = (1 / 2 < r1);
                     (r2, w2) = Math_random w1;
                     confidence = double_add (1 / 2) (double_mul r2 (1 / 2));
                     w3 = setTimeout_await 1000 w2
                 in (Inr (NextResponse_json
                      (JObj [(js ''sentiment'',
                              JStr (if isPositive then js ''positive'' else js ''negative'')),
                             (js ''confidence'', JNum (Finite confidence))]) 200), w3)))"

text \<open>
  The handler: \<open>catch\<close> turns every exception of the \<open>try\<close> block into a logged error
  and the response with status 500. The result type keeps \<open>Inl\<close> for an exception that
  would leave the handler.
\<close>

definition POST :: "NextRequest \<Rightarrow> world \<Rightarrow> (js_error + NextResponse) \<times> world" where
  "POST request w =
     (case POST_try request w of
        (Inr response, w') \<Rightarrow> (Inr response, w')
      | (Inl e, w') \<Rightarrow>
          (Inr (NextResponse_json
             (JObj [(js ''error'', JStr (js ''Erreur lors de la classification''))]) 500),
           console_error e w'))"

section \<open>The client: the page component \<open>Home\<close>\<close>

text \<open>
  \<open>String.prototype.trim\<close> removes white space and line terminators from both ends:
  TAB, LF, VT, FF, CR, SP, NBSP, the other space separators of Unicode, LS, PS and the
  byte order mark.
\<close>

definition is_whitespace :: "16 word \<Rightarrow> bool" where
  "is_whitespace c =
     (c \<in> {0x9, 0xA, 0xB, 0xC, 0xD, 0x20, 0xA0, 0x1680, 0x2028, 0x2029, 0x202F, 0x205F,
            0x3000, 0xFEFF}
      \<or> (0x2000 \<le> c \<and> c \<le> 0x200A))"

definition trim :: "jsstring \<Rightarrow> jsstring" where
  "trim s = rev (dropWhile is_whitespace (rev (dropWhile is_whitespace s)))"

text \<open>
  The four state variables of the component (\<open>text\<close>, \<open>prediction\<close>, \<open>loading\<close>,
  \<open>error\<close>); \<open>null\<close> is \<open>JNull\<close> for the prediction and \<open>None\<close> for the error.
\<close>

record Home =
  text' :: jsstring
  prediction :: json
  loading :: bool
  error :: "jsstring option"

text \<open>
  What \<open>fetch\<close> comes back with: the promise rejects (the request could not be made or
  got no answer), or it resolves to a response, of which the client reads the status
  and \<open>response.json()\<close> (\<open>None\<close> for a body that is not JSON).
\<close>

datatype fetch_outcome = Rejected | Responded nat "json option"

definition response_ok :: "nat \<Rightarrow> bool" where
  "response_ok code = (200 \<le> code \<and> code \<le> 299)"

text \<open>The statements inside \<open>try\<close> of \<open>classifyText\<close>, up to the value passed to \<open>setPrediction\<close>.\<close>

definition classifyText_try :: "(json \<Rightarrow> fetch_outcome) \<Rightarrow> json \<Rightarrow> js_error + json" where
  "classifyText_try fetch sent =
     (case fetch sent of
        Rejected \<Rightarrow> Inl TypeError
      | Responded code data \<Rightarrow>
          if \<not> response_ok code then Inl (Error (js ''Erreur lors de la classification''))
          else (case data of None \<Rightarrow> Inl SyntaxError | Some d \<Rightarrow> Inr d))"

text \<open>
  The two messages \<open>classifyText\<close> passes to \<open>setError\<close>: the first before anything is
  sent (its character \<open>0xE0\<close> is the letter a with a grave accent), the second in the
  \<open>catch\<close> block.
\<close>

definition validation_message :: jsstring where
  "validation_message = js (''Veuillez entrer un texte '' @ [CHR 0xE0] @ '' classifier'')"

definition failure_message :: jsstring where
  "failure_message = js ''Une erreur est survenue lors de la classification''"

text \<open>
  \<open>classifyText\<close>, run to its end. \<open>fetch\<close> maps the JSON value sent to \<open>/api/classify\<close> to
  what comes back. The result is the component's state afterwards, the bodies sent, and
  the errors written with \<open>console.error\<close>.
\<close>

definition classifyText ::
  "(json \<Rightarrow> fetch_outcome) \<Rightarrow> Home \<Rightarrow> Home \<times> json list \<times> js_error list" where
  "classifyText fetch st =
     (if \<not> truthy (Json (JStr (trim (text' st)))) then
        (st\<lparr>error := Some validation_message\<rparr>, [], [])
      else
        let st1 = st\<lparr>loading := True, error := None\<rparr>;
            sent = JObj [(js ''text'', JStr (text' st))]
        in (case classifyText_try fetch sent of
              Inr data \<Rightarrow> (st1\<lparr>prediction := data, loading := False\<rparr>, [sent], [])
            | Inl err \<Rightarrow>
                (st1\<lparr>error := Some failure_message, loading := False\<rparr>, [sent], [err])))"

text \<open>
  What the page shows of the error state: \<open>{error && <div>{error}</div>}\<close> renders the
  message when it is truthy.
\<close>

definition shown_error :: "Home \<Rightarrow> jsstring option" where
  "shown_error st =
     (case error st of
        None \<Rightarrow> None
      | Some m \<Rightarrow> if truthy (Json (JStr m)) then Some m else None)"

section \<open>Concrete requests and worlds\<close>

definition text_request :: "jsstring \<Rightarrow> NextRequest" where
  "text_request s = \<lparr>json_body = Some (JObj [(js ''text'', JStr s)])\<rparr>"

definition world_of :: "rat \<Rightarrow> rat \<Rightarrow> world" where
  "world_of r1 r2 =
     \<lparr>random_seq = (\<lambda>n. if n = 0 then r1 else r2), random_calls = 0, elapsed_ms = 0,
      console = []\<rparr>"

text \<open>
  The \<open>fetch\<close> of the page when the service is up: the body the page sends is the body
  the handler parses, and the handler's response is the response the page reads. An
  exception leaving the handler would reach the page as a response with status 500 and
  a body that is not JSON.
\<close>

definition service_fetch :: "world \<Rightarrow> json \<Rightarrow> fetch_outcome" where
  "service_fetch w sent =
     (case fst (POST \<lparr>json_body = Some sent\<rparr> w) of
        Inr response \<Rightarrow> Responded (status response) (Some (body response))
      | Inl e \<Rightarrow> Responded 500 None)"

section \<open>The binade of a number\<close>

lemma find_exponent_bounds:
  "e \<le> find_exponent n e x \<and> find_exponent n e x \<le> e + int n"
proof (induction n arbitrary: e)
  case 0
  show ?case by simp
next
  case (Suc n)
  from Suc [of "e + 1"] show ?case by simp
qed

lemma find_exponent_lower:
  "e < find_exponent n e x \<Longrightarrow> 2 powi (find_exponent n e x) \<le> x"
proof (induction n arbitrary: e)
  case 0
  then show ?case by simp
next
  case (Suc n)
  show ?case
  proof (cases "2 powi (e + 1) \<le> x")
    case True
    show ?thesis
    proof (cases "e + 1 < find_exponent n (e + 1) x")
      case True
      with Suc.IH [of "e + 1"] \<open>2 powi (e + 1) \<le> x\<close> show ?thesis by simp
    next
      case False
      with find_exponent_bounds [of "e + 1" n x] have "find_exponent n (e + 1) x = e + 1"
        by simp
      with True show ?thesis by simp
    qed
  next
    case False
    with Suc.prems show ?thesis by simp
  qed
qed

lemma find_exponent_upper:
  "find_exponent n e x < e + int n \<Longrightarrow> x < 2 powi (find_exponent n e x + 1)"
proof (induction n arbitrary: e)
  case 0
  then show ?case by simp
next
  case (Suc n)
  show ?case
  proof (cases "2 powi (e + 1) \<le> x")
    case True
    with Suc.prems have "find_exponent n (e + 1) x < (e + 1) + int n" by simp
    from Suc.IH [OF this] True show ?thesis by simp
  next
    case False
    then show ?thesis by simp
  qed
qed

lemma exponent_range: "- 1022 \<le> exponent x \<and> exponent x \<le> 1023"
  using find_exponent_bounds [of "- 1022" 2045 x] by (simp add: exponent_def)

lemma exponent_lower: "- 1022 < exponent x \<Longrightarrow> 2 powi (exponent x) \<le> x"
  unfolding exponent_def by (rule find_exponent_lower)

lemma exponent_upper:
  assumes "x < 2 powi 1024"
  shows "x < 2 powi (exponent x + 1)"
proof (cases "exponent x < 1023")
  case True
  then have "find_exponent 2045 (- 1022) x < - 1022 + int 2045"
    by (simp add: exponent_def)
  from find_exponent_upper [OF this] show ?thesis by (simp add: exponent_def)
next
  case False
  with exponent_range [of x] have "exponent x = 1023" by simp
  with assms show ?thesis by simp
qed

lemma exponent_eq:
  assumes "- 1022 \<le> k" "k \<le> 1023" "2 powi k \<le> x" "x < 2 powi (k + 1)"
  shows "exponent x = k"
proof (rule antisym)
  show "exponent x \<le> k"
  proof (rule ccontr)
    assume "\<not> exponent x \<le> k"
    then have gt: "k + 1 \<le> exponent x" by simp
    with assms(1) have "- 1022 < exponent x" by simp
    then have "2 powi (exponent x) \<le> x" by (rule exponent_lower)
    moreover have "(2::rat) powi (k + 1) \<le> 2 powi (exponent x)"
      using gt by (intro power_int_increasing) simp_all
    ultimately show False using assms(4) by simp
  qed
  show "k \<le> exponent x"
  proof (rule ccontr)
    assume "\<not> k \<le> exponent x"
    then have lt: "exponent x + 1 \<le> k" by simp
    have "(2::rat) powi k \<le> 2 powi 1023"
      using assms(2) by (intro power_int_increasing) simp_all
    moreover have "(2::rat) powi 1023 < 2 powi 1024"
      by (intro power_int_strict_increasing) simp_all
    ultimately have "x < 2 powi 1024" using assms(4) power_int_increasing [of "k+1" 1024 "2::rat"] assms(2) by simp
    then have "x < 2 powi (exponent x + 1)" by (rule exponent_upper)
    moreover have "(2::rat) powi (exponent x + 1) \<le> 2 powi k"
      using lt by (intro power_int_increasing) simp_all
    ultimately show False using assms(3) by simp
  qed
qed

lemma exponent_subnormal:
  assumes "x < 2 powi (- 1022)"
  shows "exponent x = - 1022"
proof (rule ccontr)
  assume "exponent x \<noteq> - 1022"
  with exponent_range [of x] have gt: "- 1022 < exponent x" by simp
  then have "2 powi (exponent x) \<le> x" by (rule exponent_lower)
  moreover have "(2::rat) powi (- 1022) \<le> 2 powi (exponent x)"
    using gt by (intro power_int_increasing) simp_all
  ultimately show False using assms by simp
qed


section \<open>Rounding to the nearest double\<close>

lemma round_half_even_of_int: "round_half_even (of_int n) = n"
  by (simp add: round_half_even_def)

lemma round_half_even_ge:
  assumes "of_int a \<le> q"
  shows "a \<le> round_half_even q"
proof -
  from assms have "a \<le> \<lfloor>q\<rfloor>" by (simp add: le_floor_iff)
  then show ?thesis by (simp add: round_half_even_def Let_def)
qed

lemma round_half_even_le:
  assumes "q \<le> of_int b"
  shows "round_half_even q \<le> b"
proof (cases "q = of_int b")
  case True
  then show ?thesis by (simp add: round_half_even_of_int)
next
  case False
  with assms have "q < of_int b" by simp
  then have "\<lfloor>q\<rfloor> < b" by (simp add: floor_less_iff)
  then show ?thesis by (simp add: round_half_even_def Let_def)
qed

lemma round_double_binade:
  assumes "- 1022 \<le> k" "k \<le> 1023" "2 powi k \<le> x" "x < 2 powi (k + 1)"
  shows "round_double x =
    of_int (round_half_even (x / 2 powi (k - 52))) * 2 powi (k - 52)"
proof -
  have "(0::rat) < 2 powi k" by simp
  with assms(3) have pos: "0 < x" by linarith
  then have "\<bar>x\<bar> = x" by simp
  moreover have "exponent x = k" using assms by (rule exponent_eq)
  ultimately show ?thesis using pos by (simp add: round_double_def ulp_def)
qed

lemma round_double_nonneg:
  assumes "0 \<le> x"
  shows "0 \<le> round_double x"
proof -
  have "(0::rat) < ulp x" by (simp add: ulp_def)
  then have "of_int 0 \<le> \<bar>x\<bar> / ulp x" by simp
  then have "0 \<le> round_half_even (\<bar>x\<bar> / ulp x)" by (rule round_half_even_ge)
  moreover have "0 \<le> sgn x" using assms by (simp add: sgn_if)
  moreover have "0 \<le> ulp x" by (simp add: ulp_def)
  ultimately show ?thesis by (simp add: round_double_def)
qed

lemma round_half_even_below_half:
  assumes "q < of_int n + 1 / 2"
  shows "round_half_even q \<le> n"
proof -
  from assms have "q < of_int n + 1" by simp
  then have fl: "\<lfloor>q\<rfloor> \<le> n" by (simp add: floor_le_iff)
  show ?thesis
  proof (cases "\<lfloor>q\<rfloor> = n")
    case True
    with assms have "q - of_int \<lfloor>q\<rfloor> < 1 / 2" by simp
    then show ?thesis using True by (simp add: round_half_even_def Let_def)
  next
    case False
    with fl have "\<lfloor>q\<rfloor> + 1 \<le> n" by simp
    then show ?thesis by (simp add: round_half_even_def Let_def)
  qed
qed

lemma round_half_even_odd_up:
  assumes "of_int n + 1 / 2 \<le> q" "q < of_int n + 1" "odd n"
  shows "round_half_even q = n + 1"
proof -
  have "of_int n \<le> q" using assms(1) by simp
  moreover have "q < of_int n + 1" by (rule assms(2))
  ultimately have fl: "\<lfloor>q\<rfloor> = n" by (simp add: floor_unique)
  with assms(1) have "\<not> q - of_int \<lfloor>q\<rfloor> < 1 / 2" by simp
  with fl assms(3) show ?thesis by (simp add: round_half_even_def Let_def)
qed

lemma round_double_zero: "round_double 0 = 0"
  by (simp add: round_double_def)

lemma round_double_le_grid:
  assumes "- 1022 \<le> k" "k \<le> 1023" "2 powi k \<le> x" "x < 2 powi (k + 1)"
    and "x \<le> of_int n * 2 powi (k - 52)"
  shows "round_double x \<le> of_int n * 2 powi (k - 52)"
proof -
  have u: "(0::rat) < 2 powi (k - 52)" by simp
  from assms(5) u have "x / 2 powi (k - 52) \<le> of_int n"
    by (simp add: pos_divide_le_eq)
  then have "round_half_even (x / 2 powi (k - 52)) \<le> n" by (rule round_half_even_le)
  then have "(of_int (round_half_even (x / 2 powi (k - 52))) :: rat) \<le> of_int n" by simp
  with u have "of_int (round_half_even (x / 2 powi (k - 52))) * 2 powi (k - 52)
      \<le> of_int n * (2::rat) powi (k - 52)"
    by (simp only: mult_le_cancel_right_pos)
  then show ?thesis using assms(1-4) by (simp only: round_double_binade)
qed

lemma round_double_ge_grid:
  assumes "- 1022 \<le> k" "k \<le> 1023" "2 powi k \<le> x" "x < 2 powi (k + 1)"
    and "of_int n * 2 powi (k - 52) \<le> x"
  shows "of_int n * 2 powi (k - 52) \<le> round_double x"
proof -
  have u: "(0::rat) < 2 powi (k - 52)" by simp
  from assms(5) u have "of_int n \<le> x / 2 powi (k - 52)"
    by (simp add: pos_le_divide_eq)
  then have "n \<le> round_half_even (x / 2 powi (k - 52))" by (rule round_half_even_ge)
  then have "(of_int n :: rat) \<le> of_int (round_half_even (x / 2 powi (k - 52)))" by simp
  with u have "of_int n * (2::rat) powi (k - 52)
      \<le> of_int (round_half_even (x / 2 powi (k - 52))) * 2 powi (k - 52)"
    by (simp only: mult_le_cancel_right_pos)
  then show ?thesis using assms(1-4) by (simp only: round_double_binade)
qed

lemma round_double_le_pow2:
  assumes "0 \<le> x" "x \<le> 2 powi k" "- 1022 < k" "k \<le> 1023"
  shows "round_double x \<le> 2 powi k"
proof (cases "x = 2 powi k")
  case True
  have "x < 2 powi (k + 1)"
    unfolding True by (intro power_int_strict_increasing) simp_all
  moreover have "x \<le> of_int 2 ^ 52 * 2 powi (k - 52)"
    by (simp add: True power_int_diff)
  ultimately have "round_double x \<le> of_int (2 ^ 52) * 2 powi (k - 52)"
    using assms(3,4) True by (intro round_double_le_grid) simp_all
  then show ?thesis by (simp add: power_int_diff)
next
  case False
  with assms(2) have lt: "x < 2 powi k" by simp
  show ?thesis
  proof (cases "x = 0")
    case True
    then show ?thesis by (simp add: round_double_zero)
  next
    case False
    with assms(1) have pos: "0 < x" by simp
    define e where "e = exponent x"
    have "(2::rat) powi k \<le> 2 powi 1024"
      using assms(4) by (intro power_int_increasing) simp_all
    with lt have "x < 2 powi 1024" by simp
    then have up: "x < 2 powi (e + 1)" unfolding e_def by (rule exponent_upper)
    have range: "- 1022 \<le> e" "e \<le> 1023" using exponent_range [of x] by (simp_all add: e_def)
    have ek: "e + 1 \<le> k"
    proof (rule ccontr)
      assume "\<not> e + 1 \<le> k"
      then have ke: "k \<le> e" by simp
      with assms(3) have "- 1022 < exponent x" by (simp add: e_def)
      then have "2 powi e \<le> x" unfolding e_def by (rule exponent_lower)
      moreover have "(2::rat) powi k \<le> 2 powi e"
        using ke by (intro power_int_increasing) simp_all
      ultimately show False using lt by simp
    qed
    have rd: "round_double x = of_int (round_half_even (x / 2 powi (e - 52))) * 2 powi (e - 52)"
      using pos by (simp add: round_double_def ulp_def e_def)
    have u: "(0::rat) < 2 powi (e - 52)" by simp
    have "(2::rat) powi (e + 1) = of_int (2 ^ 53) * 2 powi (e - 52)"
      by (simp add: power_int_diff power_int_add)
    with up have "x \<le> of_int (2 ^ 53) * 2 powi (e - 52)" by simp
    with u have "x / 2 powi (e - 52) \<le> of_int (2 ^ 53)" by (simp add: pos_divide_le_eq)
    then have "round_half_even (x / 2 powi (e - 52)) \<le> 2 ^ 53" by (rule round_half_even_le)
    then have "(of_int (round_half_even (x / 2 powi (e - 52))) :: rat) \<le> of_int (2 ^ 53)"
      by (simp only: of_int_le_iff)
    with u have "of_int (round_half_even (x / 2 powi (e - 52))) * 2 powi (e - 52)
        \<le> of_int (2 ^ 53) * (2::rat) powi (e - 52)"
      by (simp only: mult_le_cancel_right_pos)
    also have "\<dots> = 2 powi (e + 1)" by (simp add: power_int_diff power_int_add)
    also have "\<dots> \<le> 2 powi k" using ek by (intro power_int_increasing) simp_all
    finally show ?thesis by (simp only: rd)
  qed
qed

lemma round_double_exact:
  assumes "- 1022 \<le> k" "k \<le> 1023" "2 powi k \<le> x" "x < 2 powi (k + 1)"
    and "x = of_int n * 2 powi (k - 52)"
  shows "round_double x = x"
proof -
  have "x / 2 powi (k - 52) = of_int n" by (simp add: assms(5))
  then have "round_half_even (x / 2 powi (k - 52)) = n" by (simp only: round_half_even_of_int)
  then show ?thesis
    using round_double_binade [OF assms(1-4)] assms(5) by simp
qed


section \<open>The confidence computation \<open>0.5 + Math.random() * 0.5\<close>\<close>

lemma half_product_bounds:
  assumes "0 \<le> r" "r < 1"
  shows "0 \<le> round_double (r * (1 / 2)) \<and> round_double (r * (1 / 2)) \<le> 1 / 2"
proof
  show "0 \<le> round_double (r * (1 / 2))" using assms(1) by (intro round_double_nonneg) simp
  have "round_double (r * (1 / 2)) \<le> 2 powi (- 1)"
    using assms by (intro round_double_le_pow2) (simp_all add: power_int_minus_divide)
  then show "round_double (r * (1 / 2)) \<le> 1 / 2" by (simp add: power_int_minus_divide)
qed

lemma half_sum_bounds:
  assumes "0 \<le> p" "p \<le> 1 / 2"
  shows "1 / 2 \<le> round_double (1 / 2 + p) \<and> round_double (1 / 2 + p) \<le> 1"
proof
  have "round_double (1 / 2 + p) \<le> 2 powi 0"
    using assms by (intro round_double_le_pow2) simp_all
  then show "round_double (1 / 2 + p) \<le> 1" by simp
  show "1 / 2 \<le> round_double (1 / 2 + p)"
  proof (cases "p = 1 / 2")
    case True
    have "of_int (2 ^ 51) * 2 powi (0 - 52) \<le> round_double 1"
      by (intro round_double_ge_grid) (simp_all add: power_int_minus_divide)
    then show ?thesis by (simp add: True power_int_minus_divide)
  next
    case False
    with assms(2) have "p < 1 / 2" by simp
    then have "of_int (2 ^ 52) * 2 powi (- 1 - 52) \<le> round_double (1 / 2 + p)"
      using assms(1) by (intro round_double_ge_grid) (simp_all add: power_int_minus_divide)
    then show ?thesis by (simp add: power_int_minus_divide)
  qed
qed

lemma half_product_below:
  assumes "0 \<le> x" "x \<le> 1 / 2 - 2 powi (- 53)"
  shows "round_double x \<le> 1 / 2 - 2 powi (- 53)"
proof (cases "x < 1 / 4")
  case True
  have "round_double x \<le> 2 powi (- 2)"
    using assms(1) True by (intro round_double_le_pow2) (simp_all add: power_int_minus_divide)
  then show ?thesis by (simp add: power_int_minus_divide)
next
  case False
  then have "round_double x \<le> of_int (2 ^ 53 - 2) * 2 powi (- 2 - 52)"
    using assms(2) by (intro round_double_le_grid) (simp_all add: power_int_minus_divide)
  then show ?thesis by (simp add: power_int_minus_divide)
qed

lemma half_sum_below:
  assumes "1 / 2 \<le> y" "y \<le> 1 - 2 powi (- 53)"
  shows "round_double y \<le> 1 - 2 powi (- 53)"
proof -
  have "round_double y \<le> of_int (2 ^ 53 - 1) * 2 powi (- 1 - 52)"
    using assms by (intro round_double_le_grid) (simp_all add: power_int_minus_divide)
  then show ?thesis by (simp add: power_int_minus_divide)
qed

lemma half_sum_tie:
  assumes "1 - 2 powi (- 54) \<le> y" "y \<le> 1"
  shows "round_double y = 1"
proof (cases "y = 1")
  case True
  have "round_double 1 = of_int (round_half_even (1 / 2 powi (0 - 52))) * 2 powi (0 - 52)"
    by (intro round_double_binade) simp_all
  moreover have "(1::rat) / 2 powi (0 - 52) = of_int (2 ^ 52)"
    by (simp add: power_int_minus_divide)
  ultimately show ?thesis
    by (simp only: True round_half_even_of_int) (simp add: power_int_minus_divide)
next
  case False
  with assms(2) have lt: "y < 1" by simp
  have rd: "round_double y = of_int (round_half_even (y / 2 powi (- 1 - 52))) * 2 powi (- 1 - 52)"
    using assms(1) lt by (intro round_double_binade) (simp_all add: power_int_minus_divide)
  have "round_half_even (y / 2 powi (- 1 - 52)) = (2 ^ 53 - 1) + 1"
    using assms(1) lt by (intro round_half_even_odd_up) (simp_all add: power_int_minus_divide)
  then show ?thesis by (simp add: rd power_int_minus_divide)
qed

lemma double_below_one:
  assumes "is_double r" "0 \<le> r" "r < 1" "r \<noteq> 1 - 2 powi (- 53)"
  shows "r \<le> 1 - 2 powi (- 52)"
proof (cases "r < 1 / 2")
  case True
  then show ?thesis by (simp add: power_int_minus_divide)
next
  case False
  define n where "n = round_half_even (r / 2 powi (- 1 - 52))"
  have "round_double r = of_int n * 2 powi (- 1 - 52)"
    unfolding n_def using False assms(3)
    by (intro round_double_binade) (simp_all add: power_int_minus_divide)
  with assms(1) have r: "r = of_int n * 2 powi (- 53)" by (simp add: is_double_def)
  with assms(3) have "(of_int n :: rat) < of_int (2 ^ 53)" by (simp add: power_int_minus_divide)
  then have "n < 2 ^ 53" by (simp only: of_int_less_iff)
  moreover have "n \<noteq> 2 ^ 53 - 1"
  proof
    assume "n = 2 ^ 53 - 1"
    with r have "r = 1 - 2 powi (- 53)" by (simp add: power_int_minus_divide)
    with assms(4) show False by simp
  qed
  ultimately have "n \<le> 2 ^ 53 - 2" by simp
  then have "(of_int n :: rat) \<le> of_int (2 ^ 53 - 2)" by (simp only: of_int_le_iff)
  with r show ?thesis by (simp add: power_int_minus_divide)
qed

lemma unit_double_grid:
  assumes "- 1022 \<le> k" "k < 0" "2 powi k \<le> x" "x < 2 powi (k + 1)"
    and "x = of_int n * 2 powi (k - 52)"
  shows "unit_double x"
proof -
  have rd: "round_double x = x"
    using assms by (intro round_double_exact [of k x n]) simp_all
  have "(0::rat) < 2 powi k" by simp
  with assms(3) have pos: "0 \<le> x" by linarith
  have "(2::rat) powi (k + 1) \<le> 2 powi 0"
    using assms(2) by (intro power_int_increasing) simp_all
  with assms(4) have lt1: "x < 1" by simp
  have "(2::rat) powi 0 \<le> 2 powi 1024" by (intro power_int_increasing) simp_all
  with lt1 pos have "\<bar>x\<bar> < 2 powi 1024" by simp
  with rd pos lt1 show ?thesis by (simp add: unit_double_def is_double_def)
qed

lemma unit_double_quarter: "unit_double (1 / 4)"
  by (rule unit_double_grid [of "- 2" _ "2 ^ 52"]) (simp_all add: power_int_minus_divide)

lemma unit_double_largest: "unit_double (1 - 2 powi (- 53))"
  by (rule unit_double_grid [of "- 1" _ "2 ^ 53 - 1"]) (simp_all add: power_int_minus_divide)

lemma confidence_quarter: "double_add (1 / 2) (double_mul (1 / 4) (1 / 2)) = 5 / 8"
proof -
  have "round_double (1 / 8) = 1 / 8"
    by (rule round_double_exact [of "- 3" _ "2 ^ 52"]) (simp_all add: power_int_minus_divide)
  moreover have "(1 / 4 :: rat) * (1 / 2) = 1 / 8" by simp
  ultimately have m: "double_mul (1 / 4) (1 / 2) = 1 / 8" by (simp only: double_mul_def)
  have "round_double (5 / 8) = 5 / 8"
    by (rule round_double_exact [of "- 1" _ "5 * 2 ^ 50"]) (simp_all add: power_int_minus_divide)
  moreover have "(1 / 2 :: rat) + 1 / 8 = 5 / 8" by simp
  ultimately have "double_add (1 / 2) (1 / 8) = 5 / 8" by (simp only: double_add_def)
  then show ?thesis by (simp only: m)
qed

lemma confidence_three_quarters: "double_add (1 / 2) (double_mul (3 / 4) (1 / 2)) = 7 / 8"
proof -
  have "round_double (3 / 8) = 3 / 8"
    by (rule round_double_exact [of "- 2" _ "3 * 2 ^ 51"]) (simp_all add: power_int_minus_divide)
  moreover have "(3 / 4 :: rat) * (1 / 2) = 3 / 8" by simp
  ultimately have m: "double_mul (3 / 4) (1 / 2) = 3 / 8" by (simp only: double_mul_def)
  have "round_double (7 / 8) = 7 / 8"
    by (rule round_double_exact [of "- 1" _ "7 * 2 ^ 50"]) (simp_all add: power_int_minus_divide)
  moreover have "(1 / 2 :: rat) + 3 / 8 = 7 / 8" by simp
  ultimately have "double_add (1 / 2) (3 / 8) = 7 / 8" by (simp only: double_add_def)
  then show ?thesis by (simp only: m)
qed

lemma confidence_bounds:
  assumes "0 \<le> r" "r < 1"
  shows "1 / 2 \<le> double_add (1 / 2) (double_mul r (1 / 2))"
    and "double_add (1 / 2) (double_mul r (1 / 2)) \<le> 1"
  using half_sum_bounds [of "round_double (r * (1 / 2))"] half_product_bounds [OF assms]
  by (simp_all add: double_add_def double_mul_def)

lemma confidence_one_iff:
  assumes "unit_double r"
  shows "double_add (1 / 2) (double_mul r (1 / 2)) = 1 \<longleftrightarrow> r = 1 - 2 powi (- 53)"
proof
  assume r: "r = 1 - 2 powi (- 53)"
  have "round_double (r * (1 / 2)) = r * (1 / 2)"
    by (rule round_double_exact [of "- 2" _ "2 ^ 53 - 1"])
       (simp_all add: r power_int_minus_divide)
  then have m: "double_mul r (1 / 2) = r * (1 / 2)" by (simp only: double_mul_def)
  have "round_double (1 / 2 + r * (1 / 2)) = 1"
    by (rule half_sum_tie) (simp_all add: r power_int_minus_divide)
  then show "double_add (1 / 2) (double_mul r (1 / 2)) = 1"
    by (simp only: m double_add_def)
next
  assume one: "double_add (1 / 2) (double_mul r (1 / 2)) = 1"
  show "r = 1 - 2 powi (- 53)"
  proof (rule ccontr)
    assume "r \<noteq> 1 - 2 powi (- 53)"
    with assms have "r \<le> 1 - 2 powi (- 52)"
      by (intro double_below_one) (simp_all add: unit_double_def)
    then have "r * (1 / 2) \<le> 1 / 2 - 2 powi (- 53)" by (simp add: power_int_minus_divide)
    moreover have nonneg: "0 \<le> r * (1 / 2)" using assms by (simp add: unit_double_def)
    ultimately have p: "round_double (r * (1 / 2)) \<le> 1 / 2 - 2 powi (- 53)"
      by (intro half_product_below)
    have "0 \<le> round_double (r * (1 / 2))" using nonneg by (rule round_double_nonneg)
    with p have "round_double (1 / 2 + round_double (r * (1 / 2))) \<le> 1 - 2 powi (- 53)"
      by (intro half_sum_below) simp_all
    with one show False by (simp add: double_add_def double_mul_def)
  qed
qed

section \<open>The paths of the handler\<close>

lemma typeof_string_iff: "typeof v = js ''string'' \<longleftrightarrow> (\<exists>s. v = Json (JStr s))"
proof (cases v)
  case Undefined
  then show ?thesis by (simp add: js_def)
next
  case (Json j)
  then show ?thesis by (cases j) (simp_all add: js_def)
qed

lemma guard_passes_iff:
  "\<not> (\<not> truthy v \<or> typeof v \<noteq> js ''string'') \<longleftrightarrow> (\<exists>s. v = Json (JStr s) \<and> s \<noteq> [])"
proof (cases v)
  case Undefined
  then show ?thesis by simp
next
  case (Json j)
  then show ?thesis by (cases j) (simp_all add: js_def)
qed

lemma POST_try_invalid:
  assumes "json_body request = Some v" "destructure_text v = Inr text"
    and "\<not> (\<exists>s. text = Json (JStr s) \<and> s \<noteq> [])"
  shows "POST_try request w =
    (Inr (NextResponse_json (JObj [(js ''error'', JStr (js ''Le texte est requis''))]) 400), w)"
proof -
  from assms(3) have "\<not> truthy text \<or> typeof text \<noteq> js ''string''"
    using guard_passes_iff [of "text"] by blast
  then show ?thesis
    using assms(1,2) by (simp add: POST_try_def request_json_def)
qed

lemma POST_try_valid:
  assumes "json_body request = Some v" "destructure_text v = Inr (Json (JStr s))" "s \<noteq> []"
  shows "POST_try request w =
    (Inr (NextResponse_json
       (JObj [(js ''sentiment'',
               JStr (if 1 / 2 < random_seq w (random_calls w)
                     then js ''positive'' else js ''negative'')),
              (js ''confidence'',
               JNum (Finite (double_add (1 / 2)
                 (double_mul (random_seq w (Suc (random_calls w))) (1 / 2)))))]) 200),
     w\<lparr>random_calls := Suc (Suc (random_calls w)), elapsed_ms := elapsed_ms w + 1000\<rparr>)"
  using assms
  by (simp add: POST_try_def request_json_def Math_random_def setTimeout_await_def)

lemma POST_invalid:
  assumes "json_body request = Some v" "destructure_text v = Inr text"
    and "\<not> (\<exists>s. text = Json (JStr s) \<and> s \<noteq> [])"
  shows "POST request w =
    (Inr (NextResponse_json (JObj [(js ''error'', JStr (js ''Le texte est requis''))]) 400), w)"
  by (simp add: POST_def POST_try_invalid [OF assms])

lemma POST_valid:
  assumes "json_body request = Some v" "destructure_text v = Inr (Json (JStr s))" "s \<noteq> []"
  shows "POST request w =
    (Inr (NextResponse_json
       (JObj [(js ''sentiment'',
               JStr (if 1 / 2 < random_seq w (random_calls w)
                     then js ''positive'' else js ''negative'')),
              (js ''confidence'',
               JNum (Finite (double_add (1 / 2)
                 (double_mul (random_seq w (Suc (random_calls w))) (1 / 2)))))]) 200),
     w\<lparr>random_calls := Suc (Suc (random_calls w)), elapsed_ms := elapsed_ms w + 1000\<rparr>)"
  by (simp add: POST_def POST_try_valid [OF assms])

lemma POST_try_unparseable:
  "json_body request = None \<Longrightarrow> POST_try request w = (Inl SyntaxError, w)"
  by (simp add: POST_try_def request_json_def)

lemma POST_try_null:
  "json_body request = Some JNull \<Longrightarrow> POST_try request w = (Inl TypeError, w)"
  by (simp add: POST_try_def request_json_def)

lemma destructure_text_cases:
  "destructure_text v = Inl TypeError \<and> v = JNull \<or> (\<exists>text. destructure_text v = Inr text)"
  by (cases v) simp_all

lemma POST_text_request:
  assumes "s \<noteq> []"
  shows "POST (text_request s) w =
    (Inr (NextResponse_json
       (JObj [(js ''sentiment'',
               JStr (if 1 / 2 < random_seq w (random_calls w)
                     then js ''positive'' else js ''negative'')),
              (js ''confidence'',
               JNum (Finite (double_add (1 / 2)
                 (double_mul (random_seq w (Suc (random_calls w))) (1 / 2)))))]) 200),
     w\<lparr>random_calls := Suc (Suc (random_calls w)), elapsed_ms := elapsed_ms w + 1000\<rparr>)"
  by (rule POST_valid [of _ "JObj [(js ''text'', JStr s)]" s])
     (simp_all add: text_request_def assms)

lemma world_of_draws:
  "random_seq (world_of r1 r2) (random_calls (world_of r1 r2)) = r1"
  "random_seq (world_of r1 r2) (Suc (random_calls (world_of r1 r2))) = r2"
  by (simp_all add: world_of_def)

lemma js_good_nonempty: "js ''good'' \<noteq> []"
  by (simp add: js_def)

lemma POST_good:
  "fst (POST (text_request (js ''good'')) (world_of r1 r2)) =
     Inr \<lparr>status = 200,
          body = JObj [(js ''sentiment'',
                        JStr (if 1 / 2 < r1 then js ''positive'' else js ''negative'')),
                       (js ''confidence'',
                        JNum (Finite (double_add (1 / 2) (double_mul r2 (1 / 2)))))]\<rparr>"
  by (simp only: POST_text_request [OF js_good_nonempty] world_of_draws fst_conv
      NextResponse_json_def)

lemma POST_unparseable:
  assumes "json_body request = None"
  shows "POST request w =
    (Inr (NextResponse_json
       (JObj [(js ''error'', JStr (js ''Erreur lors de la classification''))]) 500),
     console_error SyntaxError w)"
  by (simp add: POST_def POST_try_unparseable [OF assms])

lemma POST_null:
  assumes "json_body request = Some JNull"
  shows "POST request w =
    (Inr (NextResponse_json
       (JObj [(js ''error'', JStr (js ''Erreur lors de la classification''))]) 500),
     console_error TypeError w)"
  by (simp add: POST_def POST_try_null [OF assms])

lemma request_cases:
  obtains (unparseable) "json_body request = None"
    | (null) "json_body request = Some JNull"
    | (invalid) v t where "json_body request = Some v" "destructure_text v = Inr t"
        "\<not> (\<exists>s. t = Json (JStr s) \<and> s \<noteq> [])"
    | (valid) v s where "json_body request = Some v" "destructure_text v = Inr (Json (JStr s))"
        "s \<noteq> []"
proof (cases "json_body request")
  case None
  then show ?thesis by (rule unparseable)
next
  case (Some v)
  from destructure_text_cases [of v] show ?thesis
  proof
    assume "destructure_text v = Inl TypeError \<and> v = JNull"
    with Some show ?thesis by (intro null) simp
  next
    assume "\<exists>t. destructure_text v = Inr t"
    then obtain t where t: "destructure_text v = Inr t" ..
    show ?thesis
    proof (cases "\<exists>s. t = Json (JStr s) \<and> s \<noteq> []")
      case True
      then obtain s where "t = Json (JStr s)" "s \<noteq> []" by blast
      with Some t show ?thesis by (intro valid [of v s]) simp_all
    next
      case False
      with Some t show ?thesis by (intro invalid [of v t])
    qed
  qed
qed

lemma POST_response_depends_on_draws:
  assumes "random_seq w1 = random_seq w2" and "random_calls w1 = random_calls w2"
  shows "fst (POST request w1) = fst (POST request w2)"
proof (cases request rule: request_cases)
  case unparseable
  then show ?thesis by (simp add: POST_unparseable)
next
  case null
  then show ?thesis by (simp add: POST_null)
next
  case (invalid v t)
  then show ?thesis by (simp add: POST_invalid [OF invalid])
next
  case (valid v s)
  then show ?thesis by (simp add: POST_valid [OF valid] assms)
qed

section \<open>The paths of \<open>classifyText\<close>\<close>

lemma trim_whitespace_only:
  assumes "list_all is_whitespace s"
  shows "trim s = []"
proof -
  from assms have d: "dropWhile is_whitespace s = []" by (induction s) simp_all
  show ?thesis unfolding trim_def d by simp
qed

lemma trim_Nil: "trim [] = []"
  by (simp add: trim_def)

lemma classifyText_blank:
  assumes "trim (text' st) = []"
  shows "classifyText fetch st =
    (st\<lparr>error := Some validation_message\<rparr>,
     [], [])"
  using assms by (simp add: classifyText_def)

lemma classifyText_rejected:
  assumes "trim (text' st) \<noteq> []"
    and "fetch (JObj [(js ''text'', JStr (text' st))]) = Rejected"
  shows "classifyText fetch st =
    (st\<lparr>loading := False,
        error := Some failure_message\<rparr>,
     [JObj [(js ''text'', JStr (text' st))]], [TypeError])"
  using assms by (simp add: classifyText_def classifyText_try_def)

lemma classifyText_responded:
  assumes "trim (text' st) \<noteq> []"
    and "fetch (JObj [(js ''text'', JStr (text' st))]) = Responded code data"
  shows "classifyText fetch st =
    (if \<not> response_ok code then
       (st\<lparr>loading := False,
           error := Some failure_message\<rparr>,
        [JObj [(js ''text'', JStr (text' st))]],
        [Error (js ''Erreur lors de la classification'')])
     else case data of
       None \<Rightarrow>
         (st\<lparr>loading := False,
             error := Some failure_message\<rparr>,
          [JObj [(js ''text'', JStr (text' st))]], [SyntaxError])
     | Some d \<Rightarrow>
         (st\<lparr>prediction := d, loading := False, error := None\<rparr>,
          [JObj [(js ''text'', JStr (text' st))]], []))"
  using assms by (simp add: classifyText_def classifyText_try_def split: option.split)

lemma messages_distinct: "validation_message \<noteq> failure_message"
  by (simp add: validation_message_def failure_message_def js_def)

lemma messages_nonempty: "validation_message \<noteq> []" "failure_message \<noteq> []"
  by (simp_all add: validation_message_def failure_message_def js_def)

lemma service_fetch_text:
  assumes "s \<noteq> []"
  shows "\<exists>data. service_fetch w (JObj [(js ''text'', JStr s)]) = Responded 200 (Some data)"
proof -
  have "text_request s = \<lparr>json_body = Some (JObj [(js ''text'', JStr s)])\<rparr>"
    by (simp add: text_request_def)
  with POST_text_request [OF assms, of w] show ?thesis
    by (simp add: service_fetch_def NextResponse_json_def)
qed

lemma trim_nonempty_imp: "trim s \<noteq> [] \<Longrightarrow> s \<noteq> []"
  by (auto simp: trim_def)

lemma shown_error_messages:
  "shown_error (st\<lparr>error := Some validation_message\<rparr>)
     = Some validation_message"
  "shown_error (st\<lparr>error := Some failure_message\<rparr>)
     = Some failure_message"
  "shown_error (st\<lparr>error := None\<rparr>) = None"
  using messages_nonempty by (simp_all add: shown_error_def)

section \<open>The claims\<close>

text \<open>
  Claim C1. A request whose body parses and whose \<open>text\<close> is the empty string or not a
  string is answered with status 400 and \<open>{error: "Le texte est requis"}\<close>, and the world
  is left as it was: no call of \<open>Math.random\<close>, no wait, nothing logged. The page, for
  its part, answers an empty text with its own validation message and sends nothing.
\<close>

theorem invalid_text_rejected_before_classification:
  assumes "json_body request = Some v" and "destructure_text v = Inr t"
    and "t = Json (JStr []) \<or> (\<forall>s. t \<noteq> Json (JStr s))"
  shows "POST request w =
      (Inr \<lparr>status = 400, body = JObj [(js ''error'', JStr (js ''Le texte est requis''))]\<rparr>, w)
    \<and> classifyText fetch (st\<lparr>text' := []\<rparr>) =
      (st\<lparr>text' := [], error := Some validation_message\<rparr>, [], [])"
proof
  from assms(3) have "\<not> (\<exists>s. t = Json (JStr s) \<and> s \<noteq> [])" by auto
  with assms(1,2) have "POST request w =
      (Inr (NextResponse_json (JObj [(js ''error'', JStr (js ''Le texte est requis''))]) 400), w)"
    by (rule POST_invalid)
  then show "POST request w =
      (Inr \<lparr>status = 400, body = JObj [(js ''error'', JStr (js ''Le texte est requis''))]\<rparr>, w)"
    by (simp only: NextResponse_json_def)
  have "trim (text' (st\<lparr>text' := []\<rparr>)) = []" by (simp add: trim_Nil)
  then show "classifyText fetch (st\<lparr>text' := []\<rparr>) =
      (st\<lparr>text' := [], error := Some validation_message\<rparr>, [], [])"
    by (rule classifyText_blank)
qed

theorem invalid_text_rejected_witness:
  "POST (text_request []) (world_of (3 / 4) (1 / 4)) =
      (Inr \<lparr>status = 400, body = JObj [(js ''error'', JStr (js ''Le texte est requis''))]\<rparr>,
       world_of (3 / 4) (1 / 4))
    \<and> POST \<lparr>json_body = Some (JObj [(js ''text'', JNum (Finite 5))])\<rparr>
        (world_of (3 / 4) (1 / 4)) =
      (Inr \<lparr>status = 400, body = JObj [(js ''error'', JStr (js ''Le texte est requis''))]\<rparr>,
       world_of (3 / 4) (1 / 4))
    \<and> classifyText (\<lambda>sent. Rejected)
        \<lparr>text' = [], prediction = JNull, loading = False, error = None\<rparr> =
      (\<lparr>text' = [], prediction = JNull, loading = False,
        error = Some validation_message\<rparr>, [], [])"
  using invalid_text_rejected_before_classification
    [of "text_request []" "JObj [(js ''text'', JStr [])]" "Json (JStr [])"
        "world_of (3 / 4) (1 / 4)" "\<lambda>sent. Rejected"
        "\<lparr>text' = [], prediction = JNull, loading = False, error = None\<rparr>"]
    invalid_text_rejected_before_classification
    [of "\<lparr>json_body = Some (JObj [(js ''text'', JNum (Finite 5))])\<rparr>"
        "JObj [(js ''text'', JNum (Finite 5))]" "Json (JNum (Finite 5))"
        "world_of (3 / 4) (1 / 4)" "\<lambda>sent. Rejected"
        "\<lparr>text' = [], prediction = JNull, loading = False, error = None\<rparr>"]
  by (simp add: text_request_def)

text \<open>
  Claim C2. For a request whose \<open>text\<close> is a non-empty string, the handler answers with
  status 200, and the confidence of the answer is between 0 and 1, whatever value in
  \<open>[0, 1)\<close> the second call of \<open>Math.random\<close> returns.
\<close>

theorem confidence_in_unit_interval:
  assumes "json_body request = Some v" and "destructure_text v = Inr (Json (JStr s))"
    and "s \<noteq> []"
    and "0 \<le> random_seq w (Suc (random_calls w))"
    and "random_seq w (Suc (random_calls w)) < 1"
  shows "\<exists>label c w'.
    POST request w =
      (Inr \<lparr>status = 200,
            body = JObj [(js ''sentiment'', JStr label),
                         (js ''confidence'', JNum (Finite c))]\<rparr>, w')
    \<and> 0 \<le> c \<and> c \<le> 1"
proof -
  define c where "c = double_add (1 / 2) (double_mul (random_seq w (Suc (random_calls w))) (1 / 2))"
  have "1 / 2 \<le> c" "c \<le> 1"
    unfolding c_def using assms(4,5) by (rule confidence_bounds)+
  then have "0 \<le> c \<and> c \<le> 1" by simp
  moreover have "POST request w =
      (Inr \<lparr>status = 200,
            body = JObj [(js ''sentiment'',
                          JStr (if 1 / 2 < random_seq w (random_calls w)
                                then js ''positive'' else js ''negative'')),
                         (js ''confidence'', JNum (Finite c))]\<rparr>,
       w\<lparr>random_calls := Suc (Suc (random_calls w)), elapsed_ms := elapsed_ms w + 1000\<rparr>)"
    unfolding c_def using POST_valid [OF assms(1-3), of w]
    by (simp only: NextResponse_json_def)
  ultimately show ?thesis by blast
qed

theorem confidence_in_unit_interval_witness:
  "\<exists>label c w'.
    POST (text_request (js ''good'')) (world_of (3 / 4) (1 / 4)) =
      (Inr \<lparr>status = 200,
            body = JObj [(js ''sentiment'', JStr label),
                         (js ''confidence'', JNum (Finite c))]\<rparr>, w')
    \<and> 0 \<le> c \<and> c \<le> 1"
  using confidence_in_unit_interval
    [of "text_request (js ''good'')" "JObj [(js ''text'', JStr (js ''good''))]" "js ''good''"
        "world_of (3 / 4) (1 / 4)"]
  by (simp add: text_request_def world_of_def js_def)

text \<open>
  Claim C3, as stated, fails. The same request, the text "good", gets the label positive
  with confidence 5/8 when \<open>Math.random\<close> returns 3/4 and then 1/4, and the label
  negative with confidence 7/8 when it returns 1/4 and then 3/4.
\<close>

theorem same_text_different_predictions:
  "fst (POST (text_request (js ''good'')) (world_of (3 / 4) (1 / 4))) =
     Inr \<lparr>status = 200,
          body = JObj [(js ''sentiment'', JStr (js ''positive'')),
                       (js ''confidence'', JNum (Finite (5 / 8)))]\<rparr>
   \<and> fst (POST (text_request (js ''good'')) (world_of (1 / 4) (3 / 4))) =
     Inr \<lparr>status = 200,
          body = JObj [(js ''sentiment'', JStr (js ''negative'')),
                       (js ''confidence'', JNum (Finite (7 / 8)))]\<rparr>"
  by (simp add: POST_good confidence_quarter confidence_three_quarters)

text \<open>
  Claim C3, amended. The prediction for a request whose \<open>text\<close> is a non-empty string
  is determined by the two values \<open>Math.random\<close> returns during the call: two calls on
  the same request that see the same two values return the same response, whatever
  else differs in the two worlds.
\<close>

theorem prediction_determined_by_draws:
  assumes "json_body request = Some v" and "destructure_text v = Inr (Json (JStr s))"
    and "s \<noteq> []"
    and "random_seq w (random_calls w) = random_seq w' (random_calls w')"
    and "random_seq w (Suc (random_calls w)) = random_seq w' (Suc (random_calls w'))"
  shows "fst (POST request w) = fst (POST request w')"
  by (simp only: POST_valid [OF assms(1-3)] assms(4,5) fst_conv)

theorem prediction_determined_by_draws_witness:
  "fst (POST (text_request (js ''good'')) (world_of (3 / 4) (1 / 4))) =
   fst (POST (text_request (js ''good''))
         ((world_of (3 / 4) (1 / 4))\<lparr>elapsed_ms := 5000, console := [TypeError]\<rparr>))"
  using prediction_determined_by_draws
    [of "text_request (js ''good'')" "JObj [(js ''text'', JStr (js ''good''))]" "js ''good''"
        "world_of (3 / 4) (1 / 4)"
        "(world_of (3 / 4) (1 / 4))\<lparr>elapsed_ms := 5000, console := [TypeError]\<rparr>"]
  by (simp add: text_request_def world_of_def js_def)

text \<open>
  Claim C4, as stated, fails. Two calls on the same text that return the same label
  return different confidences, 5/8 and 7/8: the confidence is no score of the text,
  nor of the label.
\<close>

theorem same_text_same_label_different_confidence:
  "fst (POST (text_request (js ''good'')) (world_of (3 / 4) (1 / 4))) =
     Inr \<lparr>status = 200,
          body = JObj [(js ''sentiment'', JStr (js ''positive'')),
                       (js ''confidence'', JNum (Finite (5 / 8)))]\<rparr>
   \<and> fst (POST (text_request (js ''good'')) (world_of (3 / 4) (3 / 4))) =
     Inr \<lparr>status = 200,
          body = JObj [(js ''sentiment'', JStr (js ''positive'')),
                       (js ''confidence'', JNum (Finite (7 / 8)))]\<rparr>"
  by (simp add: POST_good confidence_quarter confidence_three_quarters)

text \<open>
  Claim C4, amended. For a request whose \<open>text\<close> is a non-empty string the label is
  one of "positive" and "negative", positive exactly when the first value of
  \<open>Math.random\<close> is above 0.5, and the confidence is \<open>0.5 + r * 0.5\<close> in double
  arithmetic, for \<open>r\<close> the second value of \<open>Math.random\<close>.
\<close>

theorem label_and_confidence_from_draws:
  assumes "json_body request = Some v" and "destructure_text v = Inr (Json (JStr s))"
    and "s \<noteq> []"
  shows "\<exists>label c w'.
    POST request w =
      (Inr \<lparr>status = 200,
            body = JObj [(js ''sentiment'', JStr label),
                         (js ''confidence'', JNum (Finite c))]\<rparr>, w')
    \<and> label \<in> {js ''positive'', js ''negative''}
    \<and> (label = js ''positive'') = (1 / 2 < random_seq w (random_calls w))
    \<and> c = double_add (1 / 2) (double_mul (random_seq w (Suc (random_calls w))) (1 / 2))"
proof -
  define label where
    "label = (if 1 / 2 < random_seq w (random_calls w) then js ''positive'' else js ''negative'')"
  have "js ''negative'' \<noteq> js ''positive''" by (simp add: js_def)
  then have "label \<in> {js ''positive'', js ''negative''}"
    and "(label = js ''positive'') = (1 / 2 < random_seq w (random_calls w))"
    by (simp_all add: label_def)
  moreover have "POST request w =
      (Inr \<lparr>status = 200,
            body = JObj [(js ''sentiment'', JStr label),
                         (js ''confidence'',
                          JNum (Finite (double_add (1 / 2)
                            (double_mul (random_seq w (Suc (random_calls w))) (1 / 2)))))]\<rparr>,
       w\<lparr>random_calls := Suc (Suc (random_calls w)), elapsed_ms := elapsed_ms w + 1000\<rparr>)"
    unfolding label_def using POST_valid [OF assms, of w]
    by (simp only: NextResponse_json_def)
  ultimately show ?thesis by blast
qed

theorem label_and_confidence_from_draws_witness:
  "\<exists>label c w'.
    POST (text_request (js ''good'')) (world_of (3 / 4) (1 / 4)) =
      (Inr \<lparr>status = 200,
            body = JObj [(js ''sentiment'', JStr label),
                         (js ''confidence'', JNum (Finite c))]\<rparr>, w')
    \<and> label \<in> {js ''positive'', js ''negative''}
    \<and> (label = js ''positive'') = (1 / 2 < (3 / 4 :: rat))
    \<and> c = double_add (1 / 2) (double_mul (1 / 4) (1 / 2))"
  using label_and_confidence_from_draws
    [of "text_request (js ''good'')" "JObj [(js ''text'', JStr (js ''good''))]" "js ''good''"
        "world_of (3 / 4) (1 / 4)"]
  by (simp add: text_request_def world_of_def js_def)

text \<open>
  Claim C5, as stated, fails. A body that is not JSON is answered with status 500, which
  is not a status between 400 and 499.
\<close>

theorem unparseable_body_status_500:
  "fst (POST \<lparr>json_body = None\<rparr> (world_of (3 / 4) (1 / 4))) =
     Inr \<lparr>status = 500,
          body = JObj [(js ''error'', JStr (js ''Erreur lors de la classification''))]\<rparr>
   \<and> status \<lparr>status = 500,
          body = JObj [(js ''error'', JStr (js ''Erreur lors de la classification''))]\<rparr>
       \<notin> {400..499}"
  by (simp add: POST_unparseable NextResponse_json_def)

text \<open>
  Claim C5, amended. A request that carries no non-empty string \<open>text\<close> is answered
  without a classification and without an exception leaving the handler. When the body
  is not JSON or is \<open>null\<close>, the answer is status 500 with
  \<open>{error: "Erreur lors de la classification"}\<close>, and the SyntaxError or TypeError is
  logged. Otherwise the answer is status 400 with \<open>{error: "Le texte est requis"}\<close>. In
  no case is \<open>Math.random\<close> called or a timer awaited.
\<close>

theorem malformed_request_response:
  assumes "\<not> (\<exists>v s. json_body request = Some v \<and> destructure_text v = Inr (Json (JStr s))
              \<and> s \<noteq> [])"
  shows "POST request w =
    (if json_body request = None then
       (Inr \<lparr>status = 500,
             body = JObj [(js ''error'', JStr (js ''Erreur lors de la classification''))]\<rparr>,
        w\<lparr>console := console w @ [SyntaxError]\<rparr>)
     else if json_body request = Some JNull then
       (Inr \<lparr>status = 500,
             body = JObj [(js ''error'', JStr (js ''Erreur lors de la classification''))]\<rparr>,
        w\<lparr>console := console w @ [TypeError]\<rparr>)
     else
       (Inr \<lparr>status = 400, body = JObj [(js ''error'', JStr (js ''Le texte est requis''))]\<rparr>,
        w))"
proof (cases request rule: request_cases)
  case unparseable
  then show ?thesis
    by (simp add: POST_unparseable NextResponse_json_def console_error_def)
next
  case null
  then show ?thesis
    by (simp add: POST_null NextResponse_json_def console_error_def)
next
  case (invalid v t)
  from invalid(1,2) have "v \<noteq> JNull" by auto
  with invalid(1) have "json_body request \<noteq> None" "json_body request \<noteq> Some JNull"
    by simp_all
  then show ?thesis
    by (simp add: POST_invalid [OF invalid] NextResponse_json_def)
next
  case (valid v s)
  with assms show ?thesis by blast
qed

theorem malformed_request_response_witness:
  "POST \<lparr>json_body = None\<rparr> (world_of (3 / 4) (1 / 4)) =
     (Inr \<lparr>status = 500,
           body = JObj [(js ''error'', JStr (js ''Erreur lors de la classification''))]\<rparr>,
      (world_of (3 / 4) (1 / 4))\<lparr>console := [SyntaxError]\<rparr>)
   \<and> POST \<lparr>json_body = Some JNull\<rparr> (world_of (3 / 4) (1 / 4)) =
     (Inr \<lparr>status = 500,
           body = JObj [(js ''error'', JStr (js ''Erreur lors de la classification''))]\<rparr>,
      (world_of (3 / 4) (1 / 4))\<lparr>console := [TypeError]\<rparr>)
   \<and> POST \<lparr>json_body = Some (JObj [])\<rparr> (world_of (3 / 4) (1 / 4)) =
     (Inr \<lparr>status = 400, body = JObj [(js ''error'', JStr (js ''Le texte est requis''))]\<rparr>,
      world_of (3 / 4) (1 / 4))"
  using malformed_request_response [of "\<lparr>json_body = None\<rparr>" "world_of (3 / 4) (1 / 4)"]
    malformed_request_response [of "\<lparr>json_body = Some JNull\<rparr>" "world_of (3 / 4) (1 / 4)"]
    malformed_request_response [of "\<lparr>json_body = Some (JObj [])\<rparr>" "world_of (3 / 4) (1 / 4)"]
  by (simp add: world_of_def)

text \<open>
  Claim C6. For every request and in every world the handler returns a response; no
  exception leaves it. The status of the response is 200, 400 or 500, and a request
  answered with 400 or 500 leaves the response to any other request as it would have
  been.
\<close>

theorem POST_always_responds:
  "\<exists>response w'.
     POST request w = (Inr response, w')
     \<and> status response \<in> {200, 400, 500}
     \<and> (status response = 200 \<or> fst (POST request2 w') = fst (POST request2 w))"
proof (cases request rule: request_cases)
  case unparseable
  have "fst (POST request2 (console_error SyntaxError w)) = fst (POST request2 w)"
    by (rule POST_response_depends_on_draws) (simp_all add: console_error_def)
  then show ?thesis by (simp add: POST_unparseable [OF unparseable] NextResponse_json_def)
next
  case null
  have "fst (POST request2 (console_error TypeError w)) = fst (POST request2 w)"
    by (rule POST_response_depends_on_draws) (simp_all add: console_error_def)
  then show ?thesis by (simp add: POST_null [OF null] NextResponse_json_def)
next
  case (invalid v t)
  then show ?thesis by (simp add: POST_invalid [OF invalid] NextResponse_json_def)
next
  case (valid v s)
  then show ?thesis by (simp add: POST_valid [OF valid] NextResponse_json_def)
qed

theorem POST_always_responds_witness:
  "\<exists>response w'.
     POST \<lparr>json_body = Some JNull\<rparr> (world_of (3 / 4) (1 / 4)) = (Inr response, w')
     \<and> status response = 500
     \<and> fst (POST (text_request (js ''good'')) w') =
        fst (POST (text_request (js ''good'')) (world_of (3 / 4) (1 / 4)))"
  using POST_always_responds [of "\<lparr>json_body = Some JNull\<rparr>" "world_of (3 / 4) (1 / 4)"
      "text_request (js ''good'')"]
  by (auto simp: POST_null NextResponse_json_def)

text \<open>
  Claim C7. After \<open>classifyText\<close> the page shows the validation message exactly when
  the trimmed text is empty, and the failure message exactly when the request was sent
  and \<open>fetch\<close> rejected, the response was not OK, or its body was not JSON; the two
  messages differ. When it is the handler \<open>POST\<close> that answers, the only error the page
  shows is the validation message.
\<close>

theorem error_states_distinct:
  "shown_error (fst (classifyText fetch st)) =
     (if trim (text' st) = [] then
        Some validation_message
      else case fetch (JObj [(js ''text'', JStr (text' st))]) of
        Rejected \<Rightarrow> Some failure_message
      | Responded code data \<Rightarrow>
          if response_ok code \<and> data \<noteq> None then None
          else Some failure_message)
   \<and> validation_message \<noteq>
       failure_message
   \<and> shown_error (fst (classifyText (service_fetch w) st)) =
     (if trim (text' st) = [] then
        Some validation_message
      else None)"
proof -
  have general: "shown_error (fst (classifyText f st)) =
     (if trim (text' st) = [] then
        Some validation_message
      else case f (JObj [(js ''text'', JStr (text' st))]) of
        Rejected \<Rightarrow> Some failure_message
      | Responded code data \<Rightarrow>
          if response_ok code \<and> data \<noteq> None then None
          else Some failure_message)" for f
  proof (cases "trim (text' st) = []")
    case True
    then show ?thesis
      by (simp add: classifyText_blank [OF True] shown_error_messages)
  next
    case False
    show ?thesis
    proof (cases "f (JObj [(js ''text'', JStr (text' st))])")
      case Rejected
      show ?thesis
        using False Rejected shown_error_messages(2) [of "st\<lparr>loading := False\<rparr>"]
        by (simp add: classifyText_rejected [where fetch = f and st = st, OF False Rejected])
    next
      case (Responded code data)
      show ?thesis
        using False Responded shown_error_messages(2,3) [of "st\<lparr>loading := False\<rparr>"]
          shown_error_messages(3) [of "st\<lparr>prediction := the data, loading := False\<rparr>"]
        by (cases data) (simp_all add: classifyText_responded [where fetch = f and st = st, OF False Responded])
    qed
  qed
  have served: "shown_error (fst (classifyText (service_fetch w) st)) =
     (if trim (text' st) = [] then
        Some validation_message
      else None)"
  proof (cases "trim (text' st) = []")
    case True
    then show ?thesis by (simp add: general)
  next
    case False
    then have "text' st \<noteq> []" by (rule trim_nonempty_imp)
    from service_fetch_text [OF this, of w] obtain data where
      "service_fetch w (JObj [(js ''text'', JStr (text' st))]) = Responded 200 (Some data)" ..
    with False show ?thesis by (simp add: general response_ok_def)
  qed
  from general [of fetch] messages_distinct served show ?thesis by (intro conjI)
qed

theorem error_states_distinct_witness:
  "shown_error (fst (classifyText (\<lambda>sent. Responded 400 (Some JNull))
       \<lparr>text' = js ''good'', prediction = JNull, loading = False, error = None\<rparr>)) =
     Some failure_message
   \<and> shown_error (fst (classifyText (\<lambda>sent. Rejected)
       \<lparr>text' = js '' '', prediction = JNull, loading = False, error = None\<rparr>)) =
     Some validation_message"
  using error_states_distinct [of "\<lambda>sent. Responded 400 (Some JNull)"
      "\<lparr>text' = js ''good'', prediction = JNull, loading = False, error = None\<rparr>"
      "world_of (3 / 4) (1 / 4)"]
    error_states_distinct [of "\<lambda>sent. Rejected"
      "\<lparr>text' = js '' '', prediction = JNull, loading = False, error = None\<rparr>"
      "world_of (3 / 4) (1 / 4)"]
  by (simp add: trim_def is_whitespace_def js_def response_ok_def)

text \<open>
  Claim C8. Two requests whose \<open>text\<close> are non-empty strings get, in the same world,
  the same response, and leave the same world behind.
\<close>

theorem prediction_independent_of_text:
  assumes "json_body request1 = Some v1" and "destructure_text v1 = Inr (Json (JStr s1))"
    and "s1 \<noteq> []"
    and "json_body request2 = Some v2" and "destructure_text v2 = Inr (Json (JStr s2))"
    and "s2 \<noteq> []"
  shows "POST request1 w = POST request2 w"
  by (simp only: POST_valid [OF assms(1-3)] POST_valid [OF assms(4-6)])

theorem prediction_independent_of_text_witness:
  "POST (text_request (js ''good'')) (world_of (3 / 4) (1 / 4)) =
   POST (text_request (js ''awful'')) (world_of (3 / 4) (1 / 4))"
  using prediction_independent_of_text
    [of "text_request (js ''good'')" "JObj [(js ''text'', JStr (js ''good''))]" "js ''good''"
        "text_request (js ''awful'')" "JObj [(js ''text'', JStr (js ''awful''))]" "js ''awful''"
        "world_of (3 / 4) (1 / 4)"]
  by (simp add: text_request_def js_def)

text \<open>
  Claim C9, as stated, fails. When the second value of \<open>Math.random\<close> is the largest
  double below 1, which is \<open>1 - 2^-53\<close>, the sum \<open>0.5 + r * 0.5\<close> is the tie
  \<open>1 - 2^-54\<close>, which rounds to the even neighbour 1: the confidence is 1.
\<close>

theorem confidence_can_equal_one:
  "unit_double (1 - 2 powi (- 53))
   \<and> fst (POST (text_request (js ''good'')) (world_of (3 / 4) (1 - 2 powi (- 53)))) =
     Inr \<lparr>status = 200,
          body = JObj [(js ''sentiment'', JStr (js ''positive'')),
                       (js ''confidence'', JNum (Finite 1))]\<rparr>"
proof
  show "unit_double (1 - 2 powi (- 53))" by (rule unit_double_largest)
  have "double_add (1 / 2) (double_mul (1 - 2 powi (- 53)) (1 / 2)) = 1"
    using confidence_one_iff [OF unit_double_largest] by simp
  then show "fst (POST (text_request (js ''good'')) (world_of (3 / 4) (1 - 2 powi (- 53)))) =
     Inr \<lparr>status = 200,
          body = JObj [(js ''sentiment'', JStr (js ''positive'')),
                       (js ''confidence'', JNum (Finite 1))]\<rparr>"
    by (simp add: POST_good)
qed

text \<open>
  Claim C9, amended. For a request whose \<open>text\<close> is a non-empty string the confidence
  is at least 0.5 and at most 1, and it is 1 only when the second value of
  \<open>Math.random\<close> is \<open>1 - 2^-53\<close>.
\<close>

theorem confidence_at_least_half_at_most_one:
  assumes "json_body request = Some v" and "destructure_text v = Inr (Json (JStr s))"
    and "s \<noteq> []"
    and "unit_double (random_seq w (Suc (random_calls w)))"
  shows "\<exists>label c w'.
    POST request w =
      (Inr \<lparr>status = 200,
            body = JObj [(js ''sentiment'', JStr label),
                         (js ''confidence'', JNum (Finite c))]\<rparr>, w')
    \<and> 1 / 2 \<le> c \<and> c \<le> 1
    \<and> (c = 1) = (random_seq w (Suc (random_calls w)) = 1 - 2 powi (- 53))"
proof -
  define r where "r = random_seq w (Suc (random_calls w))"
  define c where "c = double_add (1 / 2) (double_mul r (1 / 2))"
  from assms(4) have r: "unit_double r" "0 \<le> r" "r < 1"
    by (simp_all add: r_def unit_double_def)
  have "1 / 2 \<le> c" "c \<le> 1"
    unfolding c_def using r(2,3) by (rule confidence_bounds)+
  moreover have "(c = 1) = (r = 1 - 2 powi (- 53))"
    unfolding c_def using r(1) by (rule confidence_one_iff)
  moreover have "POST request w =
      (Inr \<lparr>status = 200,
            body = JObj [(js ''sentiment'',
                          JStr (if 1 / 2 < random_seq w (random_calls w)
                                then js ''positive'' else js ''negative'')),
                         (js ''confidence'', JNum (Finite c))]\<rparr>,
       w\<lparr>random_calls := Suc (Suc (random_calls w)), elapsed_ms := elapsed_ms w + 1000\<rparr>)"
    unfolding c_def r_def using POST_valid [OF assms(1-3), of w]
    by (simp only: NextResponse_json_def)
  ultimately show ?thesis unfolding r_def by blast
qed

theorem confidence_at_least_half_at_most_one_witness:
  "\<exists>label c w'.
    POST (text_request (js ''good'')) (world_of (3 / 4) (1 / 4)) =
      (Inr \<lparr>status = 200,
            body = JObj [(js ''sentiment'', JStr label),
                         (js ''confidence'', JNum (Finite c))]\<rparr>, w')
    \<and> 1 / 2 \<le> c \<and> c \<le> 1 \<and> c \<noteq> 1"
  using confidence_at_least_half_at_most_one
    [of "text_request (js ''good'')" "JObj [(js ''text'', JStr (js ''good''))]" "js ''good''"
        "world_of (3 / 4) (1 / 4)"]
    unit_double_quarter
  by (simp add: text_request_def world_of_def js_def power_int_minus_divide)

text \<open>
  Claim C10. A text that is not empty and consists of white space only passes the
  handler's check and is classified as any other text: two calls of \<open>Math.random\<close>,
  the label positive exactly when the first value is above 0.5, the confidence
  \<open>0.5 + r * 0.5\<close> for \<open>r\<close> the second value, a wait of 1000 ms, and the answer with
  status 200. The page answers the same text with its validation message and sends
  nothing.
\<close>

theorem whitespace_text_classified_by_service:
  assumes "s \<noteq> []" and "list_all is_whitespace s"
  shows "POST \<lparr>json_body = Some (JObj [(js ''text'', JStr s)])\<rparr> w =
      (Inr \<lparr>status = 200,
            body = JObj [(js ''sentiment'',
                          JStr (if 1 / 2 < random_seq w (random_calls w)
                                then js ''positive'' else js ''negative'')),
                         (js ''confidence'',
                          JNum (Finite (double_add (1 / 2)
                            (double_mul (random_seq w (Suc (random_calls w))) (1 / 2)))))]\<rparr>,
       w\<lparr>random_calls := Suc (Suc (random_calls w)), elapsed_ms := elapsed_ms w + 1000\<rparr>)
    \<and> classifyText fetch (st\<lparr>text' := s\<rparr>) =
        (st\<lparr>text' := s, error := Some validation_message\<rparr>, [], [])"
proof
  show "POST \<lparr>json_body = Some (JObj [(js ''text'', JStr s)])\<rparr> w =
      (Inr \<lparr>status = 200,
            body = JObj [(js ''sentiment'',
                          JStr (if 1 / 2 < random_seq w (random_calls w)
                                then js ''positive'' else js ''negative'')),
                         (js ''confidence'',
                          JNum (Finite (double_add (1 / 2)
                            (double_mul (random_seq w (Suc (random_calls w))) (1 / 2)))))]\<rparr>,
       w\<lparr>random_calls := Suc (Suc (random_calls w)), elapsed_ms := elapsed_ms w + 1000\<rparr>)"
    using POST_text_request [OF assms(1), of w]
    by (simp only: text_request_def NextResponse_json_def)
  from assms(2) have "trim (text' (st\<lparr>text' := s\<rparr>)) = []"
    by (simp add: trim_whitespace_only)
  then show "classifyText fetch (st\<lparr>text' := s\<rparr>) =
        (st\<lparr>text' := s, error := Some validation_message\<rparr>, [], [])"
    by (rule classifyText_blank)
qed

theorem whitespace_text_classified_by_service_witness:
  "POST \<lparr>json_body = Some (JObj [(js ''text'', JStr (js '' ''))])\<rparr> (world_of (3 / 4) (1 / 4)) =
      (Inr \<lparr>status = 200,
            body = JObj [(js ''sentiment'', JStr (js ''positive'')),
                         (js ''confidence'', JNum (Finite (5 / 8)))]\<rparr>,
       (world_of (3 / 4) (1 / 4))\<lparr>random_calls := 2, elapsed_ms := 1000\<rparr>)
    \<and> classifyText (\<lambda>sent. Rejected)
        \<lparr>text' = js '' '', prediction = JNull, loading = False, error = None\<rparr> =
        (\<lparr>text' = js '' '', prediction = JNull, loading = False,
          error = Some validation_message\<rparr>, [], [])"
  using whitespace_text_classified_by_service
    [of "js '' ''" "world_of (3 / 4) (1 / 4)" "\<lambda>sent. Rejected"
        "\<lparr>text' = js '' '', prediction = JNull, loading = False, error = None\<rparr>"]
    confidence_quarter
  by (simp add: js_def is_whitespace_def world_of_def)

end
